theory Spec2Isabelle
  imports Complex_Main "HOL-Library.AList" "HOL-Library.Char_ord" "HOL-Library.List_Lexorder"
begin

section \<open>Python built-ins used by the sources\<close>

text \<open>
  Strings are Isabelle strings: sequences of code points below 256. A Python \<open>dict\<close> is an
  association list in insertion order, written with \<^const>\<open>AList.update\<close> (assignment),
  \<^const>\<open>map_of\<close> (lookup) and \<^const>\<open>AList.delete\<close> (\<open>pop\<close>/\<open>del\<close>).
\<close>

definition py_isspace :: "char \<Rightarrow> bool" where
  \<comment> \<open>\<open>str.isspace\<close> on one code point below 256: TAB, LF, VT, FF, CR, FS, GS, RS, US, SPACE, NEL, NBSP\<close>
  "py_isspace c = (of_char c \<in> {9, 10, 11, 12, 13, 28, 29, 30, 31, 32, 133, 160 :: nat})"

definition py_strip :: "string \<Rightarrow> string" where
  \<comment> \<open>\<open>s.strip()\<close>\<close>
  "py_strip s = rev (dropWhile py_isspace (rev (dropWhile py_isspace s)))"

fun py_split :: "char \<Rightarrow> string \<Rightarrow> string list" where
  \<comment> \<open>\<open>s.split(sep)\<close> for a one-character separator: always at least one piece\<close>
  "py_split sep [] = [[]]"
| "py_split sep (c # cs) =
     (if c = sep then [] # py_split sep cs
      else (case py_split sep cs of
              [] \<Rightarrow> [[c]]
            | p # ps \<Rightarrow> (c # p) # ps))"

definition digit_char :: "nat \<Rightarrow> char" where
  "digit_char d = ''0123456789'' ! d"

fun str_nat :: "nat \<Rightarrow> string" where
  \<comment> \<open>\<open>str(n)\<close> for a non-negative integer: decimal digits, no leading zero\<close>
  "str_nat n = (if n < 10 then [digit_char n] else str_nat (n div 10) @ [digit_char (n mod 10)])"

declare str_nat.simps [simp del]

definition str_int :: "int \<Rightarrow> string" where
  \<comment> \<open>\<open>str(i)\<close>\<close>
  "str_int i = (if i < 0 then CHR ''-'' # str_nat (nat (- i)) else str_nat (nat i))"

text \<open>Decimal numerals determine the number.\<close>

lemma of_char_digit: "d < 10 \<Longrightarrow> of_char (digit_char d) = 48 + d"
proof -
  assume "d < 10"
  then have "d \<in> {0,1,2,3,4,5,6,7,8,9}" by auto
  then show ?thesis by (auto simp: digit_char_def)
qed

lemma digit_char_inj: "d < 10 \<Longrightarrow> e < 10 \<Longrightarrow> digit_char d = digit_char e \<Longrightarrow> d = e"
  by (metis of_char_digit add_left_cancel)

lemma str_nat_nonempty: "str_nat n \<noteq> []"
  by (subst str_nat.simps) simp

lemma str_nat_inj: "str_nat m = str_nat n \<Longrightarrow> m = n"
proof (induction m arbitrary: n rule: str_nat.induct)
  case (1 m)
  show ?case
  proof (cases "m < 10")
    case True
    then have sm: "str_nat m = [digit_char m]" by (subst str_nat.simps) simp
    show ?thesis
    proof (cases "n < 10")
      case n: True
      then have "str_nat n = [digit_char n]" by (subst str_nat.simps) simp
      with sm "1.prems" True n show ?thesis by (auto dest: digit_char_inj)
    next
      case n: False
      then have "str_nat n = str_nat (n div 10) @ [digit_char (n mod 10)]" by (subst str_nat.simps) simp
      with sm "1.prems" str_nat_nonempty[of "n div 10"] show ?thesis by (cases "str_nat (n div 10)") auto
    qed
  next
    case False
    then have sm: "str_nat m = str_nat (m div 10) @ [digit_char (m mod 10)]" by (subst str_nat.simps) simp
    show ?thesis
    proof (cases "n < 10")
      case n: True
      then have "str_nat n = [digit_char n]" by (subst str_nat.simps) simp
      with sm "1.prems" str_nat_nonempty[of "m div 10"] show ?thesis by (cases "str_nat (m div 10)") auto
    next
      case n: False
      then have sn: "str_nat n = str_nat (n div 10) @ [digit_char (n mod 10)]" by (subst str_nat.simps) simp
      from sm sn "1.prems" have a: "str_nat (m div 10) = str_nat (n div 10)"
        and b: "digit_char (m mod 10) = digit_char (n mod 10)" by auto
      from "1.IH"[OF False a] have d: "m div 10 = n div 10" .
      from b have e: "m mod 10 = n mod 10" by (auto dest!: digit_char_inj[rotated 2])
      from d e show ?thesis by (metis div_mult_mod_eq)
    qed
  qed
qed

section \<open>The execution engine (\<open>db/executor.py\<close>)\<close>

subsection \<open>The driver as seen by \<open>execute_sql\<close>\<close>

text \<open>
  Values in result rows are opaque to the engine; \<open>VNone\<close> is Python's \<open>None\<close>.
\<close>

datatype db_value = VNone | VInt int | VStr string | VBool bool | VBytes string

type_synonym row = "db_value list"

text \<open>
  What \<open>conn.exec_driver_sql(stmt)\<close> hands back: \<open>returns_rows\<close>, \<open>keys()\<close>, the rows
  the statement produced in cursor order, whether \<open>fetchmany\<close> raises (the source then
  falls back to \<open>fetchall\<close>), whether \<open>fetchall\<close> raises too, and \<open>rowcount\<close>.
\<close>

record cursor_result =
  returns_rows :: bool
  keys :: "string list"
  produced_rows :: "row list"
  fetchmany_raises :: bool
  fetchall_raises :: "string option"
  rowcount :: int

datatype driver_reply = Raised string | Result cursor_result

text \<open>
  One call of the worker thread: the reply of the driver, the \<open>perf_counter\<close> difference the
  worker measures, and for how many polls of the waiting loop \<open>thr.is_alive()\<close> stays true
  (\<open>None\<close>: the driver call never returns).
\<close>

record driver_call =
  reply :: driver_reply
  elapsed :: real
  alive_polls :: "nat option"

text \<open>
  The engine: whether \<open>engine.connect()\<close> raises, and the driver's answer to a statement
  given the statements issued before it on the same connection.
\<close>

record db_engine =
  connect_raises :: "string option"
  exec_driver_sql :: "string list \<Rightarrow> string \<Rightarrow> driver_call"

text \<open>
  \<open>stop_event\<close>: absent, or an event whose \<open>is_set()\<close> answers are given by the index of
  the call (the event is set and cleared by another thread).
\<close>

type_synonym stop_event = "(nat \<Rightarrow> bool) option"

record execution_result =
  columns :: "string list"
  rows :: "row list"
  elapsed_seconds :: real
  truncated :: bool

text \<open>
  The errors of a call, one for each \<open>raise\<close> of the source (all are \<open>RuntimeError\<close>s with the
  text as message) and one for an exception of \<open>engine.connect()\<close>. \<open>UnknownFailure\<close> is the
  defensive fallback for a worker that ends with neither value nor error, which \<open>_run_statement\<close>
  never does.
\<close>

datatype exec_error =
    Canceled
  | TimedOut string
  | StatementError string string
  | UnknownFailure string
  | ConnectFailed string

subsection \<open>\<open>_run_statement\<close>\<close>

text \<open>
  The row limit is a number of rows, a natural number. \<open>fetchmany(n)\<close> hands out the next
  \<open>n\<close> rows of the cursor, fewer when fewer are left.
\<close>

definition fetch_rows :: "cursor_result \<Rightarrow> nat \<Rightarrow> string + row list" where
  \<comment> \<open>\<open>try: res.fetchmany(row_limit + 1)  except Exception: res.fetchall()\<close>\<close>
  "fetch_rows res row_limit =
     (if fetchmany_raises res then
        (case fetchall_raises res of
           Some e \<Rightarrow> Inl e
         | None \<Rightarrow> Inr (produced_rows res))
      else Inr (take (row_limit + 1) (produced_rows res)))"

definition run_statement :: "driver_call \<Rightarrow> nat \<Rightarrow> string + execution_result" where
  "run_statement call row_limit =
     (case reply call of
        Raised e \<Rightarrow> Inl e
      | Result res \<Rightarrow>
          if returns_rows res then
            (case fetch_rows res row_limit of
               Inl e \<Rightarrow> Inl e
             | Inr fetched \<Rightarrow>
                 if length fetched > row_limit
                 then Inr \<lparr>columns = keys res, rows = take row_limit fetched,
                           elapsed_seconds = elapsed call, truncated = True\<rparr>
                 else Inr \<lparr>columns = keys res, rows = fetched,
                           elapsed_seconds = elapsed call, truncated = False\<rparr>)
          else Inr \<lparr>columns = [''Message''],
                    rows = [[VStr (''Affected rows: '' @ str_int (rowcount res))]],
                    elapsed_seconds = elapsed call, truncated = False\<rparr>)"

subsection \<open>Waiting for the worker thread\<close>

datatype wait_outcome = Finished | WaitCanceled | WaitTimedOut

definition is_set :: "stop_event \<Rightarrow> nat \<Rightarrow> bool" where
  \<comment> \<open>\<open>stop_event and stop_event.is_set()\<close>, at the \<open>k\<close>-th look at the event\<close>
  "is_set ev k = (case ev of None \<Rightarrow> False | Some f \<Rightarrow> f k)"

definition looked :: "stop_event \<Rightarrow> nat \<Rightarrow> nat" where
  "looked ev k = (case ev of None \<Rightarrow> k | Some f \<Rightarrow> Suc k)"

definition is_alive :: "nat option \<Rightarrow> nat \<Rightarrow> bool" where
  "is_alive alive waited = (case alive of None \<Rightarrow> True | Some d \<Rightarrow> waited < d)"

text \<open>
  The loop \<open>while thr.is_alive(): thr.join(interval); waited += interval; ...\<close>. Time is
  counted in join intervals; \<open>limit\<close> is the number of intervals after which
  \<open>waited >= _EXECUTION_TIMEOUT\<close> holds. The second component of the result is the number of
  looks at the stop event so far.
\<close>

function wait_loop :: "nat \<Rightarrow> stop_event \<Rightarrow> nat option \<Rightarrow> nat \<Rightarrow> nat \<Rightarrow> wait_outcome \<times> nat" where
  "wait_loop limit ev alive waited k =
     (if \<not> is_alive alive waited then (Finished, k)
      else if is_set ev k then (WaitCanceled, looked ev k)
      else if waited + 1 \<ge> limit then (WaitTimedOut, looked ev k)
      else wait_loop limit ev alive (waited + 1) (looked ev k))"
  by pat_completeness auto
termination
  by (relation "measure (\<lambda>(limit, ev, alive, waited, k). limit - waited)") auto

declare wait_loop.simps [simp del]

subsection \<open>\<open>execute_sql\<close>\<close>

definition split_statements :: "string \<Rightarrow> string list" where
  \<comment> \<open>\<open>[s.strip() for s in sql.split(";") if s.strip()]\<close>\<close>
  "split_statements sql = map py_strip (filter (\<lambda>s. py_strip s \<noteq> []) (py_split CHR '';'' sql))"

text \<open>
  The state of one call: the statements handed to \<open>conn.exec_driver_sql\<close> so far, the
  number of looks at the stop event, and the results appended so far.
\<close>

record exec_state =
  issued :: "string list"
  looks :: nat
  results :: "execution_result list"

fun run_statements ::
  "db_engine \<Rightarrow> nat \<Rightarrow> stop_event \<Rightarrow> nat \<Rightarrow> string list \<Rightarrow> exec_state \<Rightarrow> exec_error option \<times> exec_state" where
  "run_statements eng limit ev row_limit [] st = (None, st)"
| "run_statements eng limit ev row_limit (stmt # stmts) st =
     (if is_set ev (looks st) then (Some Canceled, st\<lparr>looks := looked ev (looks st)\<rparr>)
      else
        let call = exec_driver_sql eng (issued st) stmt;
            st1 = st\<lparr>issued := issued st @ [stmt], looks := looked ev (looks st)\<rparr>
        in (case wait_loop limit ev (alive_polls call) 0 (looks st1) of
              (WaitCanceled, k) \<Rightarrow> (Some Canceled, st1\<lparr>looks := k\<rparr>)
            | (WaitTimedOut, k) \<Rightarrow> (Some (TimedOut stmt), st1\<lparr>looks := k\<rparr>)
            | (Finished, k) \<Rightarrow>
                (case run_statement call row_limit of
                   Inl e \<Rightarrow> (Some (StatementError stmt e), st1\<lparr>looks := k\<rparr>)
                 | Inr r \<Rightarrow>
                     run_statements eng limit ev row_limit stmts
                       (st1\<lparr>looks := k, results := results st1 @ [r]\<rparr>))))"

record call_outcome =
  sent :: "string list"
  returned :: "exec_error + execution_result list"

definition execute_sql :: "db_engine \<Rightarrow> nat \<Rightarrow> string \<Rightarrow> stop_event \<Rightarrow> nat \<Rightarrow> call_outcome" where
  "execute_sql eng limit sql ev row_limit =
     (let statements = split_statements sql in
      if statements = [] then \<lparr>sent = [], returned = Inr []\<rparr>
      else (case connect_raises eng of
              Some e \<Rightarrow> \<lparr>sent = [], returned = Inl (ConnectFailed e)\<rparr>
            | None \<Rightarrow>
                (case run_statements eng limit ev row_limit statements
                        \<lparr>issued = [], looks = 0, results = []\<rparr> of
                   (Some err, st) \<Rightarrow> \<lparr>sent = issued st, returned = Inl err\<rparr>
                 | (None, st) \<Rightarrow> \<lparr>sent = issued st, returned = Inr (results st)\<rparr>)))"

subsection \<open>Concrete engines for the examples\<close>

definition demo_cursor :: cursor_result where
  "demo_cursor = \<lparr>returns_rows = True, keys = [''id''],
                  produced_rows = [[VInt 1], [VInt 2], [VInt 3]],
                  fetchmany_raises = False, fetchall_raises = None, rowcount = - 1\<rparr>"

definition demo_update :: cursor_result where
  "demo_update = \<lparr>returns_rows = False, keys = [],
                  produced_rows = [],
                  fetchmany_raises = False, fetchall_raises = None, rowcount = 2\<rparr>"

definition demo_engine :: db_engine where
  "demo_engine = \<lparr>connect_raises = None,
     exec_driver_sql = (\<lambda>hist stmt.
        \<lparr>reply = Result (if take 6 stmt = ''SELECT'' then demo_cursor else demo_update),
         elapsed = 0, alive_polls = Some 0\<rparr>)\<rparr>"

definition demo_stop :: stop_event where
  "demo_stop = Some (\<lambda>k. 1 \<le> k)"

section \<open>The mutation applier (\<open>db/executor.py\<close>)\<close>


















subsection \<open>Concrete inputs for the mutation applier\<close>




section \<open>The connection registry (\<open>db/connection.py\<close>, class \<open>ConnectionManager\<close>)\<close>

subsection \<open>Configuration records and the rot13 transform\<close>

text \<open>
  A configuration is whatever \<open>json.loads\<close> returns or \<open>add_connection\<close> stores: a JSON value,
  normally an object. An object is a \<open>dict\<close> in insertion order.
\<close>

datatype json =
    JNull
  | JBool bool
  | JInt int
  | JStr string
  | JList "json list"
  | JObj "(string \<times> json) list"

definition rot13_char :: "char \<Rightarrow> char" where
  \<comment> \<open>the \<open>rot_13\<close> codec's table: the 26 letters of each case rotated by 13, every other character kept\<close>
  "rot13_char c =
     (let n = (of_char c :: nat) in
      if 65 \<le> n \<and> n \<le> 90 then char_of ((n - 65 + 13) mod 26 + 65)
      else if 97 \<le> n \<and> n \<le> 122 then char_of ((n - 97 + 13) mod 26 + 97)
      else c)"

definition rot13 :: "string \<Rightarrow> string" where
  \<comment> \<open>\<open>codecs.encode(s, 'rot_13')\<close> and \<open>codecs.decode(s, 'rot_13')\<close>: the same table both ways\<close>
  "rot13 s = map rot13_char s"

fun encode_password :: "json \<Rightarrow> json" where
  \<comment> \<open>\<open>_save_config\<close>: a copy of the record with a string password rot13-encoded\<close>
  "encode_password (JObj cfg) =
     (case map_of cfg ''password'' of
        Some (JStr p) \<Rightarrow> JObj (AList.update ''password'' (JStr (rot13 p)) cfg)
      | _ \<Rightarrow> JObj cfg)"
| "encode_password cfg = cfg"

fun decode_password :: "json \<Rightarrow> json" where
  \<comment> \<open>\<open>_load_config\<close>: a string password rot13-decoded in place\<close>
  "decode_password (JObj cfg) =
     (case map_of cfg ''password'' of
        Some (JStr p) \<Rightarrow> JObj (AList.update ''password'' (JStr (rot13 p)) cfg)
      | _ \<Rightarrow> JObj cfg)"
| "decode_password cfg = cfg"

subsection \<open>Engines, the file and the environment\<close>

text \<open>
  An engine is what \<open>create_engine\<close> was given, with the schema of the \<open>connect\<close> listener that
  sets the search path, when one is attached.
\<close>

record url_obj =
  url_drivername :: string
  url_username :: "string option"
  url_password :: "string option"
  url_host :: "string option"
  url_port :: "int option"
  url_database :: "string option"
  url_query :: "(string \<times> string) list"

datatype engine_target = SqliteFile string | UrlTarget url_obj | RawUrl string

record engine =
  target :: engine_target
  search_path_listener :: "string option"

text \<open>
  The file at \<open>config_path\<close>: missing, not parseable as JSON under any of the encodings tried,
  or holding a JSON document. The JSON library is taken at its contract: what \<open>json.dump\<close>
  writes, \<open>json.loads\<close> reads back.
\<close>

datatype config_file = Missing | Unparseable | Document json

datatype write_outcome = Written | OpenFailed

text \<open>
  The environment: the file system (\<open>os.path.exists\<close>, \<open>basename\<close>, \<open>abspath\<close>, whether
  the configuration file can be written), whether \<open>create_engine\<close> raises, and the two steps of
  the reconstruction in \<open>get_connection\<close> that depend on the installed drivers and the network:
  building the engine for a stored record and a password candidate (which may raise), and the
  connection test on a thread joined for five seconds (\<open>None\<close>: connected).
\<close>

record os_env =
  path_exists :: "string \<Rightarrow> bool"
  basename :: "string \<Rightarrow> string"
  abspath :: "string \<Rightarrow> string"
  write_file :: write_outcome
  create_engine_raises :: "engine_target \<Rightarrow> string option"
  build_engine :: "json \<Rightarrow> string option \<Rightarrow> string + engine"
  connect_test :: "engine \<Rightarrow> string option"

text \<open>
  The manager: the two maps \<open>_engines\<close> and \<open>_configs\<close> (Python \<open>dict\<close>s, so their keys are
  distinct), the configuration file, and the engines disposed so far.
\<close>

record registry =
  engines :: "(string \<times> engine) list"
  configs :: "(string \<times> json) list"
  disk :: config_file
  disposed :: "engine list"

datatype registry_error =
    FileNotFound string
  | NotAvailable string
  | CreateEngineFailed string

subsection \<open>\<open>_save_config\<close>, \<open>_load_config\<close> and the constructor\<close>

fun store_all :: "(string \<times> json) list \<Rightarrow> (json \<Rightarrow> json) \<Rightarrow> (string \<times> json) list \<Rightarrow> (string \<times> json) list" where
  \<comment> \<open>\<open>for name, cfg in items: d[name] = f(cfg)\<close>\<close>
  "store_all [] f d = d"
| "store_all ((name, cfg) # items) f d = store_all items f (AList.update name (f cfg) d)"

definition save_config :: "os_env \<Rightarrow> registry \<Rightarrow> registry" where
  "save_config env reg =
     (case write_file env of
        Written \<Rightarrow> reg\<lparr>disk := Document (JObj (store_all (configs reg) encode_password []))\<rparr>
      | OpenFailed \<Rightarrow> reg)"

definition load_config :: "registry \<Rightarrow> registry" where
  "load_config reg =
     (case disk reg of
        Missing \<Rightarrow> reg
      | Unparseable \<Rightarrow> reg
      | Document data \<Rightarrow>
          (case data of
             JObj items \<Rightarrow> reg\<lparr>configs := store_all items decode_password (configs reg)\<rparr>
           | _ \<Rightarrow> reg))"

definition new_manager :: "config_file \<Rightarrow> registry" where
  \<comment> \<open>\<open>__init__\<close>: empty maps, then \<open>_load_config\<close>\<close>
  "new_manager file = load_config \<lparr>engines = [], configs = [], disk = file, disposed = []\<rparr>"

subsection \<open>Names\<close>

definition numbered :: "string \<Rightarrow> nat \<Rightarrow> string" where
  \<comment> \<open>\<open>f"{base} ({idx})"\<close>\<close>
  "numbered base idx = base @ '' ('' @ str_nat idx @ '')''"

text \<open>
  The loop \<open>while name in taken: name = f"{base} ({idx})"; idx += 1\<close> ends: the numbered
  names differ from one another and only finitely many of them are taken. Its measure is the
  number of taken numbers from \<open>idx\<close> on, plus one while the current name is taken.
\<close>

definition taken_from :: "nat \<Rightarrow> string \<Rightarrow> string list \<Rightarrow> nat set" where
  "taken_from idx base names = {j. idx \<le> j \<and> numbered base j \<in> set names}"

lemma numbered_inj: "numbered base i = numbered base j \<Longrightarrow> i = j"
  by (auto simp: numbered_def dest: str_nat_inj)

lemma finite_taken_from: "finite (taken_from idx base names)"
proof -
  have "inj (numbered base)" by (auto simp: inj_on_def dest: numbered_inj)
  then have "finite (numbered base -` set names)" by (rule finite_vimageI[rotated]) simp
  moreover have "taken_from idx base names \<subseteq> numbered base -` set names"
    by (auto simp: taken_from_def)
  ultimately show ?thesis by (rule rev_finite_subset)
qed

lemma taken_from_step:
  "taken_from idx base names =
     (if numbered base idx \<in> set names then insert idx (taken_from (Suc idx) base names)
      else taken_from (Suc idx) base names)"
  by (auto simp: taken_from_def Suc_le_eq le_less dest: numbered_inj)

lemma card_taken_from:
  "card (taken_from idx base names) =
     card (taken_from (Suc idx) base names) + (if numbered base idx \<in> set names then 1 else 0)"
proof -
  have "idx \<notin> taken_from (Suc idx) base names" by (simp add: taken_from_def)
  then show ?thesis
    by (subst taken_from_step) (simp add: finite_taken_from)
qed

function unique_name :: "string list \<Rightarrow> string \<Rightarrow> string \<Rightarrow> nat \<Rightarrow> string" where
  "unique_name names base name idx =
     (if name \<in> set names then unique_name names base (numbered base idx) (idx + 1) else name)"
  by pat_completeness auto

termination
proof (relation "measure (\<lambda>(names, base, name, idx).
         card (taken_from idx base names) + (if name \<in> set names then 1 else 0))")
  show "wf (measure (\<lambda>(names, base, name, idx).
         card (taken_from idx base names) + (if name \<in> set names then 1 else 0)))"
    by simp
next
  fix names :: "string list" and base name :: string and idx :: nat
  assume "name \<in> set names"
  then show "((names, base, numbered base idx, idx + 1), names, base, name, idx)
       \<in> measure (\<lambda>(names, base, name, idx).
         card (taken_from idx base names) + (if name \<in> set names then 1 else 0))"
    using card_taken_from[of idx base names] by simp
qed

declare unique_name.simps [simp del]

subsection \<open>Registry operations\<close>

definition has_key :: "string \<Rightarrow> (string \<times> 'v) list \<Rightarrow> bool" where
  \<comment> \<open>\<open>name in d\<close>\<close>
  "has_key name d = (name \<in> set (map fst d))"

definition add_sqlite_connection ::
  "os_env \<Rightarrow> registry \<Rightarrow> string \<Rightarrow> registry \<times> (registry_error + string)" where
  "add_sqlite_connection env reg path =
     (if \<not> path_exists env path then (reg, Inl (FileNotFound path))
      else
        let name0 = ''SQLite: '' @ basename env path;
            name = (if has_key name0 (engines reg)
                    then unique_name (map fst (engines reg)) name0 name0 1
                    else name0);
            tgt = SqliteFile (abspath env path)
        in (case create_engine_raises env tgt of
              Some e \<Rightarrow> (reg, Inl (CreateEngineFailed e))
            | None \<Rightarrow>
                (save_config env
                   (reg\<lparr>engines := AList.update name \<lparr>target = tgt, search_path_listener = None\<rparr> (engines reg),
                        configs := AList.update name
                                     (JObj [(''type'', JStr ''sqlite''), (''path'', JStr (abspath env path))])
                                     (configs reg)\<rparr>),
                 Inr name)))"

text \<open>
  \<open>add_connection(name, conn_type, **kwargs)\<close>. The lines before and after ``ensure unique
  display name'' normalise the arguments, build the URL, create the engine and assemble the
  record to persist; they either raise or yield the engine and the record, and they neither
  read nor write the two maps of the registry. The model takes their outcome as \<open>prepared\<close>.
\<close>

definition add_connection ::
  "os_env \<Rightarrow> registry \<Rightarrow> string \<Rightarrow> string + engine \<times> json \<Rightarrow> registry \<times> (registry_error + string)" where
  "add_connection env reg name prepared =
     (case prepared of
        Inl e \<Rightarrow> (reg, Inl (CreateEngineFailed e))
      | Inr (eng, cfg_record) \<Rightarrow>
          let display_name =
                (if has_key name (engines reg) \<or> has_key name (configs reg)
                 then unique_name (map fst (engines reg) @ map fst (configs reg)) name name 1
                 else name)
          in (save_config env
                (reg\<lparr>engines := AList.update display_name eng (engines reg),
                     configs := AList.update display_name cfg_record (configs reg)\<rparr>),
              Inr display_name))"

definition password_candidates :: "json \<Rightarrow> string option list option" where
  \<comment> \<open>\<open>[raw_pw]\<close>, and the rot13 of a string password when it differs; \<open>None\<close> when \<open>cfg.get\<close> raises\<close>
  "password_candidates cfg =
     (case cfg of
        JObj kv \<Rightarrow>
          (case map_of kv ''password'' of
             Some (JStr p) \<Rightarrow> Some (if rot13 p \<noteq> p then [Some p, Some (rot13 p)] else [Some p])
           | _ \<Rightarrow> Some [None])
      | _ \<Rightarrow> None)"

fun try_candidates ::
  "os_env \<Rightarrow> json \<Rightarrow> string option list \<Rightarrow> engine list \<Rightarrow> engine option \<times> engine list" where
  \<comment> \<open>the first candidate whose engine can be built and connects; the engines that failed the test are disposed\<close>
  "try_candidates env cfg [] thrown = (None, thrown)"
| "try_candidates env cfg (try_pw # rest) thrown =
     (case build_engine env cfg try_pw of
        Inl e \<Rightarrow> try_candidates env cfg rest thrown
      | Inr eng \<Rightarrow>
          (case connect_test env eng of
             Some e \<Rightarrow> try_candidates env cfg rest (thrown @ [eng])
           | None \<Rightarrow> (Some eng, thrown)))"

definition reconstruct :: "os_env \<Rightarrow> registry \<Rightarrow> string \<Rightarrow> registry" where
  "reconstruct env reg name =
     (if has_key name (engines reg) then reg
      else
        (case map_of (configs reg) name of
           None \<Rightarrow> reg
         | Some cfg \<Rightarrow>
             (case password_candidates cfg of
                None \<Rightarrow> reg
              | Some cands \<Rightarrow>
                  (case try_candidates env cfg cands [] of
                     (Some eng, thrown) \<Rightarrow>
                       reg\<lparr>engines := AList.update name eng (engines reg),
                           disposed := disposed reg @ thrown\<rparr>
                   | (None, thrown) \<Rightarrow> reg\<lparr>disposed := disposed reg @ thrown\<rparr>))))"

definition get_connection :: "os_env \<Rightarrow> registry \<Rightarrow> string \<Rightarrow> registry \<times> (registry_error + engine)" where
  "get_connection env reg name =
     (let reg' = reconstruct env reg name in
      case map_of (engines reg') name of
        None \<Rightarrow> (reg', Inl (NotAvailable name))
      | Some eng \<Rightarrow> (reg', Inr eng))"

definition list_connections :: "registry \<Rightarrow> string list" where
  \<comment> \<open>\<open>sorted(set(self._configs.keys()) | set(self._engines.keys()))\<close>\<close>
  "list_connections reg = sort (remdups (map fst (configs reg) @ map fst (engines reg)))"

definition remove_connection :: "os_env \<Rightarrow> registry \<Rightarrow> string \<Rightarrow> registry" where
  \<comment> \<open>an exception of \<open>dispose()\<close> is swallowed, so the source has no raising path\<close>
  "remove_connection env reg name =
     (let reg1 = (case map_of (engines reg) name of
                    Some eng \<Rightarrow> reg\<lparr>disposed := disposed reg @ [eng],
                                   engines := AList.delete name (engines reg)\<rparr>
                  | None \<Rightarrow> reg)
      in if has_key name (configs reg1)
         then save_config env (reg1\<lparr>configs := AList.delete name (configs reg1)\<rparr>)
         else reg1)"

subsection \<open>Concrete registry inputs\<close>

definition demo_env :: os_env where
  "demo_env = \<lparr>path_exists = (\<lambda>p. True),
               basename = (\<lambda>p. last (py_split CHR ''/'' p)),
               abspath = (\<lambda>p. p),
               write_file = Written,
               create_engine_raises = (\<lambda>t. None),
               build_engine = (\<lambda>cfg pw. Inl ''driver not installed''),
               connect_test = (\<lambda>e. None)\<rparr>"

definition demo_file :: config_file where
  "demo_file = Document (JObj
     [(''SQLite: a.db'', JObj [(''type'', JStr ''sqlite''), (''path'', JStr ''/x/a.db'')])])"

definition demo_pg_config :: json where
  "demo_pg_config = JObj [(''type'', JStr ''postgresql''), (''driver'', JStr ''psycopg2''),
       (''params'', JObj []), (''host'', JStr ''db''), (''user'', JStr ''alice''),
       (''password'', JStr ''Secret-42'')]"

definition demo_registry :: registry where
  "demo_registry = \<lparr>engines = [(''pg'', \<lparr>target = RawUrl ''postgresql://db'', search_path_listener = None\<rparr>)],
                    configs = [(''pg'', demo_pg_config)], disk = Missing, disposed = []\<rparr>"

section \<open>The descriptor parser (\<open>parse_jdbc_url\<close> in \<open>db/connection.py\<close>)\<close>

subsection \<open>The standard library as the parser uses it\<close>

text \<open>
  \<open>urllib.parse.urlparse\<close> yields the scheme, the network location, the path and the query
  string, or raises \<open>ValueError\<close>. \<open>parse_qs\<close> yields, in order of first appearance, each key
  with the list of its values; the library creates the list with the first value, so a list
  is given as its first value and the remaining ones. \<open>unquote\<close> decodes percent-escapes, and
  \<open>int\<close> converts a string or raises (\<open>None\<close>). The parser is modelled for every behaviour of
  these four functions.
\<close>

record parse_result =
  scheme :: string
  netloc :: string
  path :: string
  query_string :: string

record pylib =
  urlparse :: "string \<Rightarrow> string + parse_result"
  parse_qs :: "string \<Rightarrow> (string \<times> string \<times> string list) list"
  unquote :: "string \<Rightarrow> string"
  int_of_str :: "string \<Rightarrow> int option"

definition py_lower_char :: "char \<Rightarrow> char" where
  \<comment> \<open>\<open>str.lower\<close> on one code point below 256: A-Z, and the capital letters of Latin-1 but the multiplication sign\<close>
  "py_lower_char c =
     (let n = (of_char c :: nat) in
      if (65 \<le> n \<and> n \<le> 90) \<or> (192 \<le> n \<and> n \<le> 222 \<and> n \<noteq> 215) then char_of (n + 32) else c)"

definition py_lower :: "string \<Rightarrow> string" where
  "py_lower s = map py_lower_char s"

definition startswith :: "string \<Rightarrow> string \<Rightarrow> bool" where
  "startswith s pre = (take (length pre) s = pre)"

definition split_first :: "char \<Rightarrow> string \<Rightarrow> string \<times> string" where
  \<comment> \<open>\<open>s.split(c, 1)\<close> for \<open>c in s\<close>: around the first \<open>c\<close>\<close>
  "split_first c s = (takeWhile (\<lambda>x. x \<noteq> c) s, drop 1 (dropWhile (\<lambda>x. x \<noteq> c) s))"

definition split_last :: "char \<Rightarrow> string \<Rightarrow> string \<times> string" where
  \<comment> \<open>\<open>s.rsplit(c, 1)\<close> for \<open>c in s\<close>: around the last \<open>c\<close>\<close>
  "split_last c s =
     (rev (drop 1 (dropWhile (\<lambda>x. x \<noteq> c) (rev s))), rev (takeWhile (\<lambda>x. x \<noteq> c) (rev s)))"

subsection \<open>\<open>parse_jdbc_url\<close>\<close>

record jdbc_fields =
  conn_type :: string
  host :: "string option"
  port :: "int option"
  database :: string
  username :: "string option"
  password :: "string option"
  params :: "(string \<times> string) list"
  schema :: "string option"

datatype jdbc_error = NotJdbc | UrlparseFailed string

definition detect_conn_type :: "string \<Rightarrow> string" where
  "detect_conn_type sch =
     (if startswith sch ''postgresql'' then ''postgresql''
      else if startswith sch ''mysql'' then ''mysql''
      else (case py_split CHR ''+'' sch of p # ps \<Rightarrow> p | [] \<Rightarrow> []))"

definition split_userinfo :: "pylib \<Rightarrow> string \<Rightarrow> string option \<times> string option \<times> string" where
  \<comment> \<open>user name, password and \<open>hostinfo\<close> of a non-empty \<open>netloc\<close>\<close>
  "split_userinfo lib nl =
     (if CHR ''@'' \<in> set nl then
        (let (userinfo, hostinfo) = split_last CHR ''@'' nl in
         if CHR '':'' \<in> set userinfo then
           (let (u, p) = split_first CHR '':'' userinfo
            in (Some (unquote lib u), Some (unquote lib p), hostinfo))
         else (Some (unquote lib userinfo), None, hostinfo))
      else (None, None, nl))"

definition split_hostinfo :: "pylib \<Rightarrow> string \<Rightarrow> string option \<times> int option" where
  \<comment> \<open>\<open>try: port = int(p)  except Exception: port = None\<close>\<close>
  "split_hostinfo lib hostinfo =
     (if CHR '':'' \<in> set hostinfo then
        (let (h, p) = split_first CHR '':'' hostinfo in (Some h, int_of_str lib p))
      else (Some hostinfo, None))"

definition first_values :: "(string \<times> string \<times> string list) list \<Rightarrow> (string \<times> string) list" where
  \<comment> \<open>\<open>{k: v[0] for k, v in raw_qs.items()}\<close>\<close>
  "first_values raw_qs = fold (\<lambda>(k, v, vs) d. AList.update k v d) raw_qs []"

definition truthy_value :: "(string \<times> string) list \<Rightarrow> string \<Rightarrow> string option" where
  \<comment> \<open>\<open>key in d and d.get(key)\<close>: the value when it is a non-empty string\<close>
  "truthy_value d key = (case map_of d key of Some v \<Rightarrow> (if v \<noteq> [] then Some v else None) | None \<Rightarrow> None)"

definition capture_schema :: "(string \<times> string) list \<Rightarrow> string option" where
  "capture_schema d =
     (case truthy_value d ''currentSchema'' of
        Some v \<Rightarrow> Some v
      | None \<Rightarrow> truthy_value d ''search_path'')"

definition map_ssl :: "(string \<times> string) list \<Rightarrow> (string \<times> string) list" where
  \<comment> \<open>\<open>if params.get('ssl', '').lower() == 'false': params['sslmode'] = 'disable'\<close>\<close>
  "map_ssl d =
     (if py_lower (case map_of d ''ssl'' of Some v \<Rightarrow> v | None \<Rightarrow> []) = ''false''
      then AList.update ''sslmode'' ''disable'' d else d)"

definition setdefault :: "string \<Rightarrow> string \<Rightarrow> (string \<times> string) list \<Rightarrow> (string \<times> string) list" where
  "setdefault key v d = (case map_of d key of Some w \<Rightarrow> d | None \<Rightarrow> AList.update key v d)"

definition fold_current_schema :: "(string \<times> string) list \<Rightarrow> (string \<times> string) list" where
  "fold_current_schema d =
     (case truthy_value d ''currentSchema'' of
        Some v \<Rightarrow> setdefault ''options'' (''-c search_path='' @ v) d
      | None \<Rightarrow> d)"

definition is_timezone_key :: "string \<Rightarrow> bool" where
  "is_timezone_key key = (py_lower key = ''timezone'' \<or> py_lower key = ''servertimezone'')"

definition fold_timezone :: "(string \<times> string) list \<Rightarrow> (string \<times> string) list" where
  \<comment> \<open>the first timezone-like key is popped; a non-empty value is appended to \<open>options\<close>\<close>
  "fold_timezone d =
     (case find (\<lambda>(k, v). is_timezone_key k) d of
        None \<Rightarrow> d
      | Some (key, tz_value) \<Rightarrow>
          (let d' = AList.delete key d in
           if tz_value \<noteq> [] then
             (case map_of d' ''options'' of
                Some existing_opts \<Rightarrow>
                  (if existing_opts \<noteq> []
                   then AList.update ''options'' (existing_opts @ '' '' @ ''-c TimeZone='' @ tz_value) d'
                   else AList.update ''options'' (''-c TimeZone='' @ tz_value) d')
              | None \<Rightarrow> AList.update ''options'' (''-c TimeZone='' @ tz_value) d')
           else d'))"

definition jdbc_only_keys :: "string list" where
  "jdbc_only_keys = [''currentSchema'', ''ssl'', ''characterEncoding'', ''TimeZone'', ''serverTimezone'']"

definition remove_jdbc_only :: "(string \<times> string) list \<Rightarrow> (string \<times> string) list" where
  \<comment> \<open>\<open>for jkey in (...): params.pop(jkey, None)\<close>\<close>
  "remove_jdbc_only d = fold AList.delete jdbc_only_keys d"

definition parse_jdbc_url :: "pylib \<Rightarrow> string \<Rightarrow> jdbc_error + jdbc_fields" where
  "parse_jdbc_url lib jdbc_url =
     (if \<not> startswith jdbc_url ''jdbc:'' then Inl NotJdbc
      else
        (case urlparse lib (drop 5 jdbc_url) of
           Inl e \<Rightarrow> Inl (UrlparseFailed e)
         | Inr parsed \<Rightarrow>
             (let (username, password, hostinfo) =
                    (if netloc parsed \<noteq> [] then
                       (let (u, p, hi) = split_userinfo lib (netloc parsed) in (u, p, Some hi))
                     else (None, None, None));
                  (host, port) = (case hostinfo of
                                    Some hi \<Rightarrow> split_hostinfo lib hi
                                  | None \<Rightarrow> (None, None));
                  database = (if startswith (path parsed) ''/'' then drop 1 (path parsed) else path parsed);
                  params0 = first_values (parse_qs lib (query_string parsed));
                  schema_val = capture_schema params0;
                  params1 = remove_jdbc_only (fold_timezone (fold_current_schema (map_ssl params0)))
              in Inr \<lparr>conn_type = detect_conn_type (py_lower (scheme parsed)),
                      host = host, port = port, database = database,
                      username = username, password = password,
                      params = params1, schema = schema_val\<rparr>)))"

subsection \<open>A concrete library for the examples\<close>

text \<open>
  The four library functions on plain URLs (a scheme, \<open>//\<close>, a network location, a path and a
  query of \<open>key=value\<close> pairs without percent-escapes), as the examples below need them.
\<close>

definition demo_urlparse :: "string \<Rightarrow> string + parse_result" where
  "demo_urlparse raw =
     (let sch = takeWhile (\<lambda>c. c \<noteq> CHR '':'') raw;
          rest = drop 1 (dropWhile (\<lambda>c. c \<noteq> CHR '':'') raw);
          stop = (\<lambda>c. c = CHR ''/'' \<or> c = CHR ''?'' \<or> c = CHR ''#'');
          nl = (if startswith rest ''//'' then takeWhile (\<lambda>c. \<not> stop c) (drop 2 rest) else []);
          rest2 = (if startswith rest ''//'' then dropWhile (\<lambda>c. \<not> stop c) (drop 2 rest) else rest);
          rest3 = takeWhile (\<lambda>c. c \<noteq> CHR ''#'') rest2
      in Inr \<lparr>scheme = py_lower sch, netloc = nl,
              path = takeWhile (\<lambda>c. c \<noteq> CHR ''?'') rest3,
              query_string = drop 1 (dropWhile (\<lambda>c. c \<noteq> CHR ''?'') rest3)\<rparr>)"

fun add_value :: "string \<Rightarrow> string \<Rightarrow> (string \<times> string \<times> string list) list \<Rightarrow> (string \<times> string \<times> string list) list" where
  "add_value k v [] = [(k, v, [])]"
| "add_value k v ((k', w, ws) # d) =
     (if k = k' then (k', w, ws @ [v]) # d else (k', w, ws) # add_value k v d)"

definition demo_parse_qs :: "string \<Rightarrow> (string \<times> string \<times> string list) list" where
  "demo_parse_qs q =
     fold (\<lambda>piece d.
             if CHR ''='' \<in> set piece then
               (let (k, v) = split_first CHR ''='' piece in if v = [] then d else add_value k v d)
             else d)
          (py_split CHR ''&'' q) []"

definition demo_int :: "string \<Rightarrow> int option" where
  "demo_int s =
     (if s \<noteq> [] \<and> list_all (\<lambda>c. 48 \<le> (of_char c :: nat) \<and> (of_char c :: nat) \<le> 57) s
      then Some (int (fold (\<lambda>c n. 10 * n + (of_char c - 48)) s 0))
      else None)"

definition demo_lib :: pylib where
  "demo_lib = \<lparr>urlparse = demo_urlparse, parse_qs = demo_parse_qs,
               unquote = (\<lambda>s. s), int_of_str = demo_int\<rparr>"

section \<open>The connection directive (\<open>on_run\<close> in \<open>main_window.py\<close>)\<close>

subsection \<open>The regular expressions of the source\<close>





definition keep :: "bool \<Rightarrow> char \<Rightarrow> string \<times> string \<Rightarrow> string \<times> string" where
  \<comment> \<open>a matched character joins the group when its item is the group\<close>
  "keep grp x r = (if grp then (x # fst r, snd r) else r)"










subsection \<open>The extraction\<close>


chapter \<open>Verification\<close>

section \<open>The execution engine\<close>

lemma run_statement_message:
  "reply call = Result res \<Longrightarrow> \<not> returns_rows res \<Longrightarrow>
   run_statement call n =
     Inr \<lparr>columns = [''Message''],
          rows = [[VStr (''Affected rows: '' @ str_int (rowcount res))]],
          elapsed_seconds = elapsed call, truncated = False\<rparr>"
  by (simp add: run_statement_def)

lemma run_statement_limit:
  assumes "reply call = Result res" "returns_rows res" "run_statement call n = Inr r"
  shows "rows r = take n (produced_rows res) \<and> truncated r = (length (produced_rows res) > n)"
  using assms
  by (auto simp: run_statement_def fetch_rows_def min_def split: if_splits option.splits sum.splits)

lemma run_statements_ok:
  "run_statements eng limit ev n stmts st = (None, st') \<Longrightarrow>
     issued st' = issued st @ stmts \<and>
     length (results st') = length (results st) + length stmts \<and>
     take (length (results st)) (results st') = results st \<and>
     (\<forall>i < length stmts.
        run_statement (exec_driver_sql eng (issued st @ take i stmts) (stmts ! i)) n
          = Inr (results st' ! (length (results st) + i)))"
proof (induction stmts arbitrary: st)
  case Nil
  then show ?case by simp
next
  case (Cons stmt stmts)
  let ?call = "exec_driver_sql eng (issued st) stmt"
  let ?st1 = "st\<lparr>issued := issued st @ [stmt], looks := looked ev (looks st)\<rparr>"
  from Cons.prems have notset: "\<not> is_set ev (looks st)"
    by (auto split: if_splits)
  from Cons.prems notset obtain k where w: "wait_loop limit ev (alive_polls ?call) 0 (looks ?st1) = (Finished, k)"
    by (auto simp: Let_def split: prod.splits wait_outcome.splits sum.splits)
  from Cons.prems notset w obtain r where r: "run_statement ?call n = Inr r"
    by (auto simp: Let_def split: sum.splits)
  let ?st2 = "?st1\<lparr>looks := k, results := results ?st1 @ [r]\<rparr>"
  from Cons.prems notset w r have rec: "run_statements eng limit ev n stmts ?st2 = (None, st')"
    by (simp add: Let_def)
  note ih = Cons.IH[OF rec]
  have a: "issued st' = issued st @ stmt # stmts" using ih by simp
  have b: "length (results st') = length (results st) + length (stmt # stmts)" using ih by simp
  have c0: "take (Suc (length (results st))) (results st') = results st @ [r]" using ih by simp
  have c: "take (length (results st)) (results st') = results st"
  proof -
    have "take (length (results st)) (take (Suc (length (results st))) (results st')) = results st"
      by (simp only: c0) simp
    then show ?thesis by (simp add: min_def)
  qed
  have r0: "results st' ! length (results st) = r"
  proof -
    have "take (Suc (length (results st))) (results st') ! length (results st) = r"
      by (simp only: c0) simp
    then show ?thesis by simp
  qed
  have d: "\<forall>i < length (stmt # stmts).
        run_statement (exec_driver_sql eng (issued st @ take i (stmt # stmts)) ((stmt # stmts) ! i)) n
          = Inr (results st' ! (length (results st) + i))"
  proof (intro allI impI)
    fix i assume i: "i < length (stmt # stmts)"
    show "run_statement (exec_driver_sql eng (issued st @ take i (stmt # stmts)) ((stmt # stmts) ! i)) n
          = Inr (results st' ! (length (results st) + i))"
    proof (cases i)
      case 0
      then show ?thesis using r r0 by simp
    next
      case (Suc j)
      with i have "j < length stmts" by simp
      with ih have "run_statement (exec_driver_sql eng (issued ?st2 @ take j stmts) (stmts ! j)) n
          = Inr (results st' ! (length (results ?st2) + j))" by blast
      then show ?thesis using Suc by simp
    qed
  qed
  from a b c d show ?case by blast
qed

lemma run_statements_append:
  "run_statements eng limit ev n (pre @ post) st =
     (case run_statements eng limit ev n pre st of
        (None, st') \<Rightarrow> run_statements eng limit ev n post st'
      | (Some e, st') \<Rightarrow> (Some e, st'))"
  by (induction pre arbitrary: st)
     (auto simp: Let_def split: prod.splits wait_outcome.splits sum.splits option.splits)

lemma execute_sql_results:
  assumes "returned (execute_sql eng limit sql ev n) = Inr rs"
  shows "length rs = length (split_statements sql) \<and>
         (\<forall>i < length rs.
            run_statement (exec_driver_sql eng (take i (split_statements sql)) (split_statements sql ! i)) n
              = Inr (rs ! i))"
proof (cases "split_statements sql = []")
  case True
  with assms show ?thesis by (simp add: execute_sql_def)
next
  case False
  let ?st0 = "\<lparr>issued = [], looks = 0, results = []\<rparr>"
  obtain e st where run: "run_statements eng limit ev n (split_statements sql) ?st0 = (e, st)"
    by (cases "run_statements eng limit ev n (split_statements sql) ?st0") auto
  from assms False run have e: "e = None" and rs: "rs = results st"
    by (auto simp: execute_sql_def Let_def split: option.splits)
  from run_statements_ok[OF run[unfolded e]] rs show ?thesis by simp
qed

text \<open>
  Claim C1. A call of \<open>execute_sql\<close> with row limit \<open>N\<close> returns, for a statement whose result
  set holds \<open>M\<close> rows, the first \<open>min N M\<close> of them, and \<open>truncated\<close> is \<open>M > N\<close>: rows are
  dropped only with the flag set. (The \<open>i\<close>-th result belongs to the \<open>i\<close>-th statement, which
  the driver answers after the \<open>i\<close> statements before it.)
\<close>
theorem row_limit_truncation:
  assumes "returned (execute_sql eng limit sql ev N) = Inr rs"
    and "i < length rs"
    and "reply (exec_driver_sql eng (take i (split_statements sql)) (split_statements sql ! i)) = Result res"
    and "returns_rows res"
  shows "rows (rs ! i) = take N (produced_rows res)
       \<and> length (rows (rs ! i)) = min N (length (produced_rows res))
       \<and> truncated (rs ! i) = (length (produced_rows res) > N)"
proof -
  from execute_sql_results[OF assms(1)] assms(2)
  have "run_statement (exec_driver_sql eng (take i (split_statements sql)) (split_statements sql ! i)) N
          = Inr (rs ! i)" by blast
  from run_statement_limit[OF assms(3) assms(4) this] show ?thesis by (simp add: min.commute)
qed

lemma demo_select:
  "execute_sql demo_engine 300 ''SELECT id FROM t'' None 2 =
     \<lparr>sent = [''SELECT id FROM t''],
      returned = Inr [\<lparr>columns = [''id''], rows = [[VInt 1], [VInt 2]], elapsed_seconds = 0, truncated = True\<rparr>]\<rparr>"
  by (simp add: execute_sql_def split_statements_def py_strip_def py_isspace_def demo_engine_def
       wait_loop.simps is_alive_def is_set_def looked_def run_statement_def fetch_rows_def demo_cursor_def)

theorem row_limit_truncation_witness:
  "returned (execute_sql demo_engine 300 ''SELECT id FROM t'' None 2)
      = Inr [\<lparr>columns = [''id''], rows = [[VInt 1], [VInt 2]], elapsed_seconds = 0, truncated = True\<rparr>]
   \<and> reply (exec_driver_sql demo_engine [] ''SELECT id FROM t'') = Result demo_cursor
   \<and> returns_rows demo_cursor
   \<and> length (produced_rows demo_cursor) = 3
   \<and> rows ([\<lparr>columns = [''id''], rows = [[VInt 1], [VInt 2]], elapsed_seconds = 0, truncated = True\<rparr>] ! 0)
        = take 2 (produced_rows demo_cursor)"
proof -
  let ?rs = "[\<lparr>columns = [''id''], rows = [[VInt 1], [VInt 2]], elapsed_seconds = 0, truncated = True\<rparr>]"
  have h1: "returned (execute_sql demo_engine 300 ''SELECT id FROM t'' None 2) = Inr ?rs"
    by (simp add: demo_select)
  have h2: "(0::nat) < length ?rs" by simp
  have st: "split_statements ''SELECT id FROM t'' = [''SELECT id FROM t'']"
    by (simp add: split_statements_def py_strip_def py_isspace_def)
  have h3: "reply (exec_driver_sql demo_engine (take 0 (split_statements ''SELECT id FROM t''))
               (split_statements ''SELECT id FROM t'' ! 0)) = Result demo_cursor"
    by (simp add: st demo_engine_def)
  have h4: "returns_rows demo_cursor" by (simp add: demo_cursor_def)
  from row_limit_truncation[OF h1 h2 h3 h4] h1 h3 h4 show ?thesis
    by (simp add: st demo_cursor_def)
qed

text \<open>
  Claim C5. For a statement that produces no row set, the result has the single column
  \<open>Message\<close>, exactly one row whose only value is the text \<open>Affected rows: <rowcount>\<close>, and
  \<open>truncated = False\<close>.
\<close>
theorem message_result_for_non_query:
  assumes "returned (execute_sql eng limit sql ev N) = Inr rs"
    and "i < length rs"
    and "reply (exec_driver_sql eng (take i (split_statements sql)) (split_statements sql ! i)) = Result res"
    and "\<not> returns_rows res"
  shows "columns (rs ! i) = [''Message'']
       \<and> rows (rs ! i) = [[VStr (''Affected rows: '' @ str_int (rowcount res))]]
       \<and> truncated (rs ! i) = False"
proof -
  from execute_sql_results[OF assms(1)] assms(2)
  have "run_statement (exec_driver_sql eng (take i (split_statements sql)) (split_statements sql ! i)) N
          = Inr (rs ! i)" by blast
  with run_statement_message[OF assms(3) assms(4), of N] show ?thesis by simp
qed

lemma demo_script:
  "execute_sql demo_engine 300 ''UPDATE t SET a = 1; SELECT id FROM t'' None 5 =
     \<lparr>sent = [''UPDATE t SET a = 1'', ''SELECT id FROM t''],
      returned = Inr [\<lparr>columns = [''Message''], rows = [[VStr ''Affected rows: 2'']], elapsed_seconds = 0, truncated = False\<rparr>,
                      \<lparr>columns = [''id''], rows = [[VInt 1], [VInt 2], [VInt 3]], elapsed_seconds = 0, truncated = False\<rparr>]\<rparr>"
  by (simp add: execute_sql_def split_statements_def py_strip_def py_isspace_def demo_engine_def
       wait_loop.simps is_alive_def is_set_def looked_def run_statement_def fetch_rows_def demo_cursor_def
       demo_update_def str_int_def str_nat.simps digit_char_def)

theorem message_result_for_non_query_witness:
  "(\<exists>rs. returned (execute_sql demo_engine 300 ''UPDATE t SET a = 1; SELECT id FROM t'' None 5) = Inr rs
      \<and> 0 < length rs
      \<and> columns (rs ! 0) = [''Message'']
      \<and> rows (rs ! 0) = [[VStr ''Affected rows: 2'']]
      \<and> truncated (rs ! 0) = False)
   \<and> reply (exec_driver_sql demo_engine [] ''UPDATE t SET a = 1'') = Result demo_update
   \<and> \<not> returns_rows demo_update"
proof -
  let ?sql = "''UPDATE t SET a = 1; SELECT id FROM t''"
  obtain rs where h1: "returned (execute_sql demo_engine 300 ?sql None 5) = Inr rs" and h2: "0 < length rs"
    by (simp add: demo_script)
  have st: "split_statements ?sql = [''UPDATE t SET a = 1'', ''SELECT id FROM t'']"
    by (simp add: split_statements_def py_strip_def py_isspace_def)
  have h3: "reply (exec_driver_sql demo_engine (take 0 (split_statements ?sql)) (split_statements ?sql ! 0))
              = Result demo_update"
    by (simp add: st demo_engine_def)
  have h4: "\<not> returns_rows demo_update" by (simp add: demo_update_def)
  have r: "str_int (rowcount demo_update) = ''2''"
    by (simp add: demo_update_def str_int_def str_nat.simps digit_char_def)
  from message_result_for_non_query[OF h1 h2 h3 h4] h1 h2 h3 h4 r show ?thesis
    by (simp add: st demo_engine_def)
qed

text \<open>
  Claim C2. When the statements before \<open>stmt\<close> have completed and the stop event is set at
  the check that precedes \<open>stmt\<close>, the call fails with \<open>Canceled\<close> and the driver has received
  exactly the statements before \<open>stmt\<close>: neither \<open>stmt\<close> nor any later statement is issued.
\<close>
theorem cancel_before_statement:
  assumes "split_statements sql = pre @ stmt # post"
    and "connect_raises eng = None"
    and "run_statements eng limit ev N pre \<lparr>issued = [], looks = 0, results = []\<rparr> = (None, st)"
    and "is_set ev (looks st)"
  shows "execute_sql eng limit sql ev N = \<lparr>sent = pre, returned = Inl Canceled\<rparr>"
proof -
  let ?st0 = "\<lparr>issued = [], looks = 0, results = []\<rparr>"
  from run_statements_ok[OF assms(3)] have iss: "issued st = pre" by simp
  have "run_statements eng limit ev N (pre @ stmt # post) ?st0
          = run_statements eng limit ev N (stmt # post) st"
    by (simp add: run_statements_append assms(3))
  also have "\<dots> = (Some Canceled, st\<lparr>looks := looked ev (looks st)\<rparr>)"
    using assms(4) by simp
  finally show ?thesis
    using assms(1) assms(2) iss by (simp add: execute_sql_def)
qed

theorem cancel_before_statement_witness:
  "split_statements ''UPDATE t SET a = 1; SELECT id FROM t'' = [''UPDATE t SET a = 1''] @ ''SELECT id FROM t'' # []
   \<and> connect_raises demo_engine = None
   \<and> fst (run_statements demo_engine 300 demo_stop 5 [''UPDATE t SET a = 1'']
             \<lparr>issued = [], looks = 0, results = []\<rparr>) = None
   \<and> execute_sql demo_engine 300 ''UPDATE t SET a = 1; SELECT id FROM t'' demo_stop 5
        = \<lparr>sent = [''UPDATE t SET a = 1''], returned = Inl Canceled\<rparr>"
proof -
  let ?sql = "''UPDATE t SET a = 1; SELECT id FROM t''"
  let ?st = "\<lparr>issued = [''UPDATE t SET a = 1''], looks = 1,
              results = [\<lparr>columns = [''Message''], rows = [[VStr ''Affected rows: 2'']],
                          elapsed_seconds = 0, truncated = False\<rparr>]\<rparr>"
  have h1: "split_statements ?sql = [''UPDATE t SET a = 1''] @ ''SELECT id FROM t'' # []"
    by (simp add: split_statements_def py_strip_def py_isspace_def)
  have h2: "connect_raises demo_engine = None" by (simp add: demo_engine_def)
  have h3: "run_statements demo_engine 300 demo_stop 5 [''UPDATE t SET a = 1'']
              \<lparr>issued = [], looks = 0, results = []\<rparr> = (None, ?st)"
    by (simp add: demo_engine_def demo_stop_def wait_loop.simps is_alive_def is_set_def looked_def
          run_statement_def demo_update_def str_int_def str_nat.simps digit_char_def)
  have h4: "is_set demo_stop (looks ?st)" by (simp add: is_set_def demo_stop_def)
  from cancel_before_statement[OF h1 h2 h3 h4] h1 h2 h3 show ?thesis by simp
qed

section \<open>The mutation applier\<close>












section \<open>The connection registry\<close>

lemma unique_name_fresh: "unique_name names base name idx \<notin> set names"
  by (induction names base name idx rule: unique_name.induct) (subst unique_name.simps, simp)

lemma rot_arith: "k < 26 \<Longrightarrow> ((k + 13) mod 26 + 13) mod 26 = (k::nat)"
proof (cases "k < 13")
  case True
  then have "(k + 13) mod 26 = k + 13" by simp
  then show ?thesis by (simp add: add.assoc)
next
  case False
  assume "k < 26"
  with False have "(k + 13) mod 26 = k - 13" by (simp add: mod_if)
  with False \<open>k < 26\<close> show ?thesis by simp
qed

lemma rot_letter:
  fixes n a :: nat
  assumes "a \<le> n" "n \<le> a + 25" "a + 25 < 256"
  defines "m \<equiv> (n - a + 13) mod 26 + a"
  shows "a \<le> m" "m \<le> a + 25" "(m - a + 13) mod 26 + a = n"
proof -
  define k where "k = n - a"
  have k: "k < 26" and n: "n = k + a" using assms(1,2) by (auto simp: k_def)
  have m: "m = (k + 13) mod 26 + a" by (simp add: m_def k_def)
  have "(k + 13) mod 26 < 26" by simp
  then show "a \<le> m" "m \<le> a + 25" unfolding m by linarith+
  have "m - a = (k + 13) mod 26" by (simp add: m)
  then show "(m - a + 13) mod 26 + a = n" using rot_arith[OF k] by (simp add: n)
qed

lemma rot13_char_twice: "rot13_char (rot13_char c) = c"
proof -
  define n where "n = (of_char c :: nat)"
  have c: "char_of n = c" by (simp add: n_def)
  consider (upper) "65 \<le> n \<and> n \<le> 90" | (lower) "97 \<le> n \<and> n \<le> 122"
    | (other) "\<not> (65 \<le> n \<and> n \<le> 90) \<and> \<not> (97 \<le> n \<and> n \<le> 122)" by blast
  then show ?thesis
  proof cases
    case upper
    define m where "m = (n - 65 + 13) mod 26 + 65"
    from upper rot_letter[of 65 n] have m: "65 \<le> m" "m \<le> 90" and again: "(m - 65 + 13) mod 26 + 65 = n"
      by (simp_all add: m_def)
    have r1: "rot13_char c = char_of m"
      using upper unfolding rot13_char_def Let_def n_def[symmetric] m_def by simp
    have om: "(of_char (char_of m :: char) :: nat) = m" using m by simp
    have "rot13_char (char_of m) = char_of n"
      unfolding rot13_char_def Let_def om using m again by simp
    then show ?thesis by (simp only: r1 c)
  next
    case lower
    define m where "m = (n - 97 + 13) mod 26 + 97"
    from lower rot_letter[of 97 n] have m: "97 \<le> m" "m \<le> 122" and again: "(m - 97 + 13) mod 26 + 97 = n"
      by (simp_all add: m_def)
    have r1: "rot13_char c = char_of m"
      using lower unfolding rot13_char_def Let_def n_def[symmetric] m_def by simp
    have om: "(of_char (char_of m :: char) :: nat) = m" using m by simp
    have "rot13_char (char_of m) = char_of n"
      unfolding rot13_char_def Let_def om using m again by simp
    then show ?thesis by (simp only: r1 c)
  next
    case other
    then have "rot13_char c = c" unfolding rot13_char_def Let_def n_def[symmetric] by auto
    then show ?thesis by simp
  qed
qed

lemma rot13_twice: "rot13 (rot13 s) = s"
  by (simp add: rot13_def rot13_char_twice comp_def)

lemma decode_encode_password: "decode_password (encode_password cfg) = cfg"
proof (cases cfg)
  case (JObj kv)
  show ?thesis
  proof (cases "map_of kv ''password''")
    case None
    with JObj show ?thesis by simp
  next
    case (Some v)
    with JObj show ?thesis
      by (cases v) (simp_all add: update_conv' rot13_twice update_triv)
  qed
qed simp_all

lemma update_fresh: "k \<notin> fst ` set d \<Longrightarrow> AList.update k v d = d @ [(k, v)]"
  by (induction d) auto

lemma store_all_distinct:
  "distinct (map fst items) \<Longrightarrow> fst ` set items \<inter> fst ` set d = {} \<Longrightarrow>
   store_all items f d = d @ map (\<lambda>(k, v). (k, f v)) items"
proof (induction items arbitrary: d)
  case Nil
  then show ?case by simp
next
  case (Cons kv items)
  obtain k v where kv: "kv = (k, v)" by (cases kv) auto
  from Cons.prems kv have fresh: "k \<notin> fst ` set d" by auto
  have "fst ` set items \<inter> fst ` set (d @ [(k, f v)]) = {}"
    using Cons.prems kv by auto
  with Cons.IH[of "d @ [(k, f v)]"] Cons.prems kv fresh show ?case
    by (simp add: update_fresh)
qed

lemma save_then_load:
  assumes "distinct (map fst (configs reg))" "write_file env = Written"
  shows "disk (save_config env reg) = Document (JObj (map (\<lambda>(k, v). (k, encode_password v)) (configs reg)))"
    and "configs (new_manager (disk (save_config env reg))) = configs reg"
proof -
  show d: "disk (save_config env reg) = Document (JObj (map (\<lambda>(k, v). (k, encode_password v)) (configs reg)))"
    using assms by (simp add: save_config_def store_all_distinct)
  have dist: "distinct (map fst (map (\<lambda>(k, v). (k, encode_password v)) (configs reg)))"
    using assms(1) by (simp add: comp_def split_beta)
  have "configs (new_manager (disk (save_config env reg)))
          = map (\<lambda>(k, v). (k, decode_password v)) (map (\<lambda>(k, v). (k, encode_password v)) (configs reg))"
    by (simp add: d new_manager_def load_config_def store_all_distinct[OF dist])
  also have "\<dots> = configs reg"
    by (simp add: comp_def split_beta decode_encode_password)
  finally show "configs (new_manager (disk (save_config env reg))) = configs reg" .
qed

text \<open>
  Claim C9. With string passwords in the records, what \<open>_save_config\<close> writes holds each
  password rot13-encoded, and a manager constructed from the written file (\<open>_load_config\<close>)
  holds each password again as it was in memory; the whole map of records is restored.
\<close>

theorem password_round_trip:
  assumes "distinct (map fst (configs reg))"
    and "write_file env = Written"
    and "map_of (configs reg) name = Some (JObj cfg)"
    and "map_of cfg ''password'' = Some (JStr p)"
  shows "(\<exists>doc stored. disk (save_config env reg) = Document (JObj doc)
            \<and> map_of doc name = Some (JObj stored)
            \<and> map_of stored ''password'' = Some (JStr (rot13 p)))
       \<and> (\<exists>loaded. map_of (configs (new_manager (disk (save_config env reg)))) name = Some (JObj loaded)
            \<and> map_of loaded ''password'' = Some (JStr p))
       \<and> configs (new_manager (disk (save_config env reg))) = configs reg"
proof -
  let ?doc = "map (\<lambda>(k, v). (k, encode_password v)) (configs reg)"
  note sl = save_then_load[OF assms(1) assms(2)]
  have "map_of ?doc name = map_option encode_password (map_of (configs reg) name)"
    by (simp add: map_of_map)
  then have "map_of ?doc name = Some (JObj (AList.update ''password'' (JStr (rot13 p)) cfg))"
    using assms(3) assms(4) by simp
  moreover have "map_of (AList.update ''password'' (JStr (rot13 p)) cfg) ''password'' = Some (JStr (rot13 p))"
    by (simp add: update_conv')
  ultimately have first: "\<exists>doc stored. disk (save_config env reg) = Document (JObj doc)
            \<and> map_of doc name = Some (JObj stored)
            \<and> map_of stored ''password'' = Some (JStr (rot13 p))"
    using sl(1) by blast
  from sl(2) assms(3) assms(4) first show ?thesis by simp
qed

lemma demo_rot13: "rot13 ''Secret-42'' = ''Frperg-42''"
  by (simp add: rot13_def rot13_char_def Let_def) code_simp

theorem password_round_trip_witness:
  "distinct (map fst (configs demo_registry))
   \<and> write_file demo_env = Written
   \<and> map_of (configs demo_registry) ''pg'' = Some demo_pg_config
   \<and> disk (save_config demo_env demo_registry) = Document (JObj
        [(''pg'', JObj [(''type'', JStr ''postgresql''), (''driver'', JStr ''psycopg2''),
            (''params'', JObj []), (''host'', JStr ''db''), (''user'', JStr ''alice''),
            (''password'', JStr ''Frperg-42'')])])
   \<and> configs (new_manager (disk (save_config demo_env demo_registry))) = [(''pg'', demo_pg_config)]"
proof -
  let ?cfg = "[(''type'', JStr ''postgresql''), (''driver'', JStr ''psycopg2''),
       (''params'', JObj []), (''host'', JStr ''db''), (''user'', JStr ''alice''),
       (''password'', JStr ''Secret-42'')]"
  have h1: "distinct (map fst (configs demo_registry))" by (simp add: demo_registry_def)
  have h2: "write_file demo_env = Written" by (simp add: demo_env_def)
  have h3: "map_of (configs demo_registry) ''pg'' = Some (JObj ?cfg)"
    by (simp add: demo_registry_def demo_pg_config_def)
  have h4: "map_of ?cfg ''password'' = Some (JStr ''Secret-42'')" by simp
  have d: "disk (save_config demo_env demo_registry) = Document (JObj
        [(''pg'', JObj [(''type'', JStr ''postgresql''), (''driver'', JStr ''psycopg2''),
            (''params'', JObj []), (''host'', JStr ''db''), (''user'', JStr ''alice''),
            (''password'', JStr ''Frperg-42'')])])"
    by (simp add: save_config_def demo_env_def demo_registry_def demo_pg_config_def demo_rot13)
  have h3': "map_of (configs demo_registry) ''pg'' = Some demo_pg_config"
    by (simp add: demo_registry_def)
  from password_round_trip[OF h1 h2 h3 h4]
  have "configs (new_manager (disk (save_config demo_env demo_registry))) = configs demo_registry"
    by blast
  then have c: "configs (new_manager (disk (save_config demo_env demo_registry))) = [(''pg'', demo_pg_config)]"
    by (simp add: demo_registry_def)
  from h1 h2 h3' d c show ?thesis by blast
qed

lemma has_key_map_of: "has_key name d \<longleftrightarrow> map_of d name \<noteq> None"
  by (simp add: has_key_def map_of_eq_None_iff)

lemma has_key_delete: "\<not> has_key name (AList.delete name d)"
  by (simp add: has_key_def delete_notin_dom)

lemma keys_store_all: "fst ` set (store_all items f d) = fst ` set items \<union> fst ` set d"
proof (induction items arbitrary: d)
  case Nil
  then show ?case by simp
next
  case (Cons kv items)
  obtain k v where kv: "kv = (k, v)" by (cases kv) auto
  have "fst ` set (store_all (kv # items) f d) = fst ` set items \<union> ({k} \<union> fst ` set d)"
    by (simp add: kv Cons.IH dom_update)
  then show ?case by (simp add: kv)
qed

lemma save_config_maps:
  "engines (save_config env reg) = engines reg" "configs (save_config env reg) = configs reg"
  "disposed (save_config env reg) = disposed reg"
  by (simp_all add: save_config_def split: write_outcome.splits)

lemma remove_connection_maps:
  "engines (remove_connection env reg name) = AList.delete name (engines reg)"
  "configs (remove_connection env reg name) = AList.delete name (configs reg)"
proof -
  have e: "map_of (engines reg) name = None \<Longrightarrow> AList.delete name (engines reg) = engines reg"
    by (simp add: map_of_eq_None_iff)
  have c: "\<not> has_key name (configs reg) \<Longrightarrow> AList.delete name (configs reg) = configs reg"
    by (simp add: has_key_def)
  show "engines (remove_connection env reg name) = AList.delete name (engines reg)"
    using e by (auto simp: remove_connection_def Let_def save_config_maps split: option.splits)
  show "configs (remove_connection env reg name) = AList.delete name (configs reg)"
    using c by (auto simp: remove_connection_def Let_def save_config_maps split: option.splits)
qed

text \<open>
  Claim C7. \<open>remove_connection\<close> disposes the live handle when there is one and deletes the
  record, from memory and (when the file can be written) from the file; for a name that is
  neither a handle nor a record it changes nothing; it has no failing path. Afterwards
  \<open>list_connections\<close> does not contain the name, and \<open>get_connection\<close> fails with the error
  ``not available'' and leaves the registry as it is.
\<close>

theorem remove_connection_semantics:
  "(\<not> has_key name (engines reg) \<and> \<not> has_key name (configs reg)
       \<longrightarrow> remove_connection env reg name = reg)
   \<and> (\<forall>eng. map_of (engines reg) name = Some eng
       \<longrightarrow> eng \<in> set (disposed (remove_connection env reg name)))
   \<and> \<not> has_key name (engines (remove_connection env reg name))
   \<and> \<not> has_key name (configs (remove_connection env reg name))
   \<and> (has_key name (configs reg) \<and> write_file env = Written
       \<longrightarrow> (\<exists>doc. disk (remove_connection env reg name) = Document (JObj doc) \<and> \<not> has_key name doc))
   \<and> name \<notin> set (list_connections (remove_connection env reg name))
   \<and> get_connection env (remove_connection env reg name) name
        = (remove_connection env reg name, Inl (NotAvailable name))"
proof -
  let ?R = "remove_connection env reg name"
  have noop: "\<not> has_key name (engines reg) \<and> \<not> has_key name (configs reg) \<longrightarrow> ?R = reg"
    by (auto simp: remove_connection_def has_key_map_of)
  have disp: "\<forall>eng. map_of (engines reg) name = Some eng \<longrightarrow> eng \<in> set (disposed ?R)"
    by (auto simp: remove_connection_def Let_def save_config_maps)
  have e: "\<not> has_key name (engines ?R)" and c: "\<not> has_key name (configs ?R)"
    by (simp_all add: remove_connection_maps has_key_delete)
  have on_disk: "has_key name (configs reg) \<and> write_file env = Written
       \<longrightarrow> (\<exists>doc. disk ?R = Document (JObj doc) \<and> \<not> has_key name doc)"
  proof (intro impI, elim conjE)
    assume k: "has_key name (configs reg)" and w: "write_file env = Written"
    let ?doc = "store_all (AList.delete name (configs reg)) encode_password []"
    have "disk ?R = Document (JObj ?doc)"
      using k w by (auto simp: remove_connection_def Let_def save_config_def split: option.splits)
    moreover have "\<not> has_key name ?doc"
      using delete_notin_dom[of name "configs reg"] by (simp add: has_key_def keys_store_all)
    ultimately show "\<exists>doc. disk ?R = Document (JObj doc) \<and> \<not> has_key name doc" by blast
  qed
  have lst: "name \<notin> set (list_connections ?R)"
    using e c by (simp add: list_connections_def has_key_def)
  have "reconstruct env ?R name = ?R"
    using e c by (simp add: reconstruct_def has_key_map_of)
  then have get: "get_connection env ?R name = (?R, Inl (NotAvailable name))"
    using e by (simp add: get_connection_def has_key_map_of)
  from noop disp e c on_disk lst get show ?thesis by blast
qed

lemma demo_remove:
  "remove_connection demo_env demo_registry ''pg'' =
     \<lparr>engines = [], configs = [], disk = Document (JObj []),
      disposed = [\<lparr>target = RawUrl ''postgresql://db'', search_path_listener = None\<rparr>]\<rparr>"
  by (simp add: remove_connection_def demo_registry_def demo_env_def save_config_def has_key_def
        AList.delete_eq)

theorem remove_connection_semantics_witness:
  "map_of (engines demo_registry) ''pg'' = Some \<lparr>target = RawUrl ''postgresql://db'', search_path_listener = None\<rparr>
   \<and> has_key ''pg'' (configs demo_registry)
   \<and> write_file demo_env = Written
   \<and> \<not> has_key ''other'' (engines demo_registry) \<and> \<not> has_key ''other'' (configs demo_registry)
   \<and> remove_connection demo_env demo_registry ''other'' = demo_registry
   \<and> disposed (remove_connection demo_env demo_registry ''pg'')
        = [\<lparr>target = RawUrl ''postgresql://db'', search_path_listener = None\<rparr>]
   \<and> disk (remove_connection demo_env demo_registry ''pg'') = Document (JObj [])
   \<and> list_connections (remove_connection demo_env demo_registry ''pg'') = []
   \<and> snd (get_connection demo_env (remove_connection demo_env demo_registry ''pg'') ''pg'')
        = Inl (NotAvailable ''pg'')"
proof -
  have k: "\<not> has_key ''other'' (engines demo_registry) \<and> \<not> has_key ''other'' (configs demo_registry)"
    by (simp add: has_key_def demo_registry_def)
  have l: "list_connections (remove_connection demo_env demo_registry ''pg'') = []"
    by (simp add: demo_remove list_connections_def)
  from remove_connection_semantics[of "''other''" demo_registry demo_env] k
  have a: "remove_connection demo_env demo_registry ''other'' = demo_registry" by blast
  from remove_connection_semantics[of "''pg''" demo_registry demo_env]
  have b: "snd (get_connection demo_env (remove_connection demo_env demo_registry ''pg'') ''pg'')
        = Inl (NotAvailable ''pg'')" by simp
  from a b k l show ?thesis
    by (simp add: demo_remove) (simp add: demo_registry_def demo_env_def has_key_def)
qed

lemma add_connection_fresh:
  assumes "add_connection env reg name (Inr (eng, cfg)) = (reg', Inr display_name)"
  shows "\<not> has_key display_name (engines reg) \<and> \<not> has_key display_name (configs reg)"
    and "n \<noteq> display_name \<Longrightarrow> map_of (configs reg') n = map_of (configs reg) n"
    and "n \<noteq> display_name \<Longrightarrow> map_of (engines reg') n = map_of (engines reg) n"
proof -
  let ?taken = "map fst (engines reg) @ map fst (configs reg)"
  from assms have dn: "display_name =
        (if has_key name (engines reg) \<or> has_key name (configs reg)
         then unique_name ?taken name name 1 else name)"
    by (auto simp: add_connection_def Let_def)
  show "\<not> has_key display_name (engines reg) \<and> \<not> has_key display_name (configs reg)"
  proof (cases "has_key name (engines reg) \<or> has_key name (configs reg)")
    case True
    with dn have "display_name = unique_name ?taken name name 1" by simp
    with unique_name_fresh[of ?taken name name 1] show ?thesis by (simp add: has_key_def)
  next
    case False
    with dn show ?thesis by simp
  qed
  from assms have r: "reg' = save_config env
                (reg\<lparr>engines := AList.update display_name eng (engines reg),
                     configs := AList.update display_name cfg (configs reg)\<rparr>)"
    by (auto simp: add_connection_def Let_def)
  show "n \<noteq> display_name \<Longrightarrow> map_of (configs reg') n = map_of (configs reg) n"
    by (simp add: r save_config_maps update_conv')
  show "n \<noteq> display_name \<Longrightarrow> map_of (engines reg') n = map_of (engines reg) n"
    by (simp add: r save_config_maps update_conv')
qed

lemma demo_restart:
  "new_manager demo_file =
     \<lparr>engines = [],
      configs = [(''SQLite: a.db'', JObj [(''type'', JStr ''sqlite''), (''path'', JStr ''/x/a.db'')])],
      disk = demo_file, disposed = []\<rparr>"
  by (simp add: new_manager_def load_config_def demo_file_def)

text \<open>
  Claim C3, at an input where the code departs from it. After a restart the registry holds
  the saved record \<open>SQLite: a.db\<close> for \<open>/x/a.db\<close> and no engine yet (engines are created
  lazily). \<open>add_sqlite_connection\<close> looks for a collision among the engines only, so adding
  \<open>/y/a.db\<close> reuses the name and replaces the record for \<open>/x/a.db\<close>, in memory and in the file.
\<close>

theorem add_sqlite_connection_overwrites_saved_record:
  "map_of (configs (new_manager demo_file)) ''SQLite: a.db''
      = Some (JObj [(''type'', JStr ''sqlite''), (''path'', JStr ''/x/a.db'')])
   \<and> snd (add_sqlite_connection demo_env (new_manager demo_file) ''/y/a.db'') = Inr ''SQLite: a.db''
   \<and> configs (fst (add_sqlite_connection demo_env (new_manager demo_file) ''/y/a.db''))
      = [(''SQLite: a.db'', JObj [(''type'', JStr ''sqlite''), (''path'', JStr ''/y/a.db'')])]
   \<and> disk (fst (add_sqlite_connection demo_env (new_manager demo_file) ''/y/a.db''))
      = Document (JObj [(''SQLite: a.db'', JObj [(''type'', JStr ''sqlite''), (''path'', JStr ''/y/a.db'')])])"
  by (simp add: demo_restart add_sqlite_connection_def demo_env_def has_key_def save_config_def Let_def)

lemma demo_add_connection_renames:
  "snd (add_connection demo_env (new_manager demo_file) ''SQLite: a.db''
          (Inr (\<lparr>target = RawUrl ''postgresql://db'', search_path_listener = None\<rparr>, demo_pg_config)))
     = Inr ''SQLite: a.db (1)''"
  by (simp add: demo_restart add_connection_def has_key_def Let_def unique_name.simps numbered_def
        str_nat.simps digit_char_def)

section \<open>The descriptor parser\<close>

lemma takeWhile_until: "c \<notin> set h \<Longrightarrow> takeWhile (\<lambda>x. x \<noteq> c) (h @ c # p) = h"
  by (induction h) auto

lemma dropWhile_until: "c \<notin> set h \<Longrightarrow> dropWhile (\<lambda>x. x \<noteq> c) (h @ c # p) = c # p"
  by (induction h) auto

lemma split_first_at: "c \<notin> set h \<Longrightarrow> split_first c (h @ c # p) = (h, p)"
  by (simp add: split_first_def takeWhile_until dropWhile_until)

lemma split_last_at: "c \<notin> set t \<Longrightarrow> split_last c (u @ c # t) = (u, t)"
proof -
  assume c: "c \<notin> set t"
  have r: "rev (u @ c # t) = rev t @ c # rev u" by simp
  from c have "takeWhile (\<lambda>x. x \<noteq> c) (rev t @ c # rev u) = rev t"
    by (simp add: takeWhile_until)
  moreover from c have "dropWhile (\<lambda>x. x \<noteq> c) (rev t @ c # rev u) = c # rev u"
    by (simp add: dropWhile_until)
  ultimately show ?thesis unfolding split_last_def r by simp
qed

lemma split_hostinfo_bad_port:
  "CHR '':'' \<notin> set h \<Longrightarrow> int_of_str lib p = None \<Longrightarrow>
   split_hostinfo lib (h @ CHR '':'' # p) = (Some h, None)"
  by (simp add: split_hostinfo_def split_first_at)

lemma split_userinfo_hostinfo:
  assumes "userinfo = [] \<or> (\<exists>u. userinfo = u @ ''@'')" and "CHR ''@'' \<notin> set hi"
  shows "snd (snd (split_userinfo lib (userinfo @ hi))) = hi"
proof (cases "userinfo = []")
  case True
  with assms(2) show ?thesis by (simp add: split_userinfo_def)
next
  case False
  with assms(1) obtain u where u: "userinfo = u @ ''@''" by blast
  have "split_last CHR ''@'' (userinfo @ hi) = (u, hi)"
    using split_last_at[OF assms(2), of u] by (simp add: u)
  then show ?thesis by (simp add: split_userinfo_def u Let_def split: prod.splits)
qed

text \<open>
  Claim C10. When the host segment of a JDBC descriptor has a port component that \<open>int\<close>
  rejects, \<open>parse_jdbc_url\<close> returns normally, with the host as written and no port.
\<close>

theorem non_integer_port_is_tolerated:
  assumes "startswith jdbc_url ''jdbc:''"
    and "urlparse lib (drop 5 jdbc_url) = Inr parsed"
    and "netloc parsed = userinfo @ h @ CHR '':'' # p"
    and "userinfo = [] \<or> (\<exists>u. userinfo = u @ ''@'')"
    and "CHR ''@'' \<notin> set h \<union> set p"
    and "CHR '':'' \<notin> set h"
    and "int_of_str lib p = None"
  shows "\<exists>r. parse_jdbc_url lib jdbc_url = Inr r \<and> host r = Some h \<and> port r = None"
proof -
  have at: "CHR ''@'' \<notin> set (h @ CHR '':'' # p)" using assms(5) by simp
  obtain a b where ui: "split_userinfo lib (netloc parsed) = (a, b, h @ CHR '':'' # p)"
    using split_userinfo_hostinfo[OF assms(4) at, of lib] assms(3)
    by (cases "split_userinfo lib (netloc parsed)") auto
  have ne: "netloc parsed \<noteq> []" using assms(3) by simp
  show ?thesis
    using assms(1) assms(2) ne ui split_hostinfo_bad_port[OF assms(6) assms(7)]
    by (simp add: parse_jdbc_url_def Let_def)
qed

lemma demo_bad_port:
  "parse_jdbc_url demo_lib ''jdbc:postgresql://h:abc/db'' =
     Inr \<lparr>conn_type = ''postgresql'', host = Some ''h'', port = None, database = ''db'',
          username = None, password = None, params = [], schema = None\<rparr>"
  by (simp add: parse_jdbc_url_def demo_lib_def demo_urlparse_def demo_parse_qs_def demo_int_def
        startswith_def Let_def split_userinfo_def split_hostinfo_def split_first_def
        first_values_def capture_schema_def truthy_value_def map_ssl_def fold_current_schema_def
        fold_timezone_def remove_jdbc_only_def jdbc_only_keys_def detect_conn_type_def
        py_lower_def py_lower_char_def AList.delete_eq)

theorem non_integer_port_is_tolerated_witness:
  "startswith ''jdbc:postgresql://h:abc/db'' ''jdbc:''
   \<and> urlparse demo_lib (drop 5 ''jdbc:postgresql://h:abc/db'')
        = Inr \<lparr>scheme = ''postgresql'', netloc = ''h:abc'', path = ''/db'', query_string = []\<rparr>
   \<and> int_of_str demo_lib ''abc'' = None
   \<and> (\<exists>r. parse_jdbc_url demo_lib ''jdbc:postgresql://h:abc/db'' = Inr r
          \<and> host r = Some ''h'' \<and> port r = None)"
proof -
  let ?parsed = "\<lparr>scheme = ''postgresql'', netloc = ''h:abc'', path = ''/db'', query_string = []\<rparr>"
  have h1: "startswith ''jdbc:postgresql://h:abc/db'' ''jdbc:''" by (simp add: startswith_def)
  have h2: "urlparse demo_lib (drop 5 ''jdbc:postgresql://h:abc/db'') = Inr ?parsed"
    by (simp add: demo_lib_def demo_urlparse_def startswith_def py_lower_def py_lower_char_def Let_def)
  have h3: "netloc ?parsed = [] @ ''h'' @ CHR '':'' # ''abc''" by simp
  have h4: "([]::string) = [] \<or> (\<exists>u. ([]::string) = u @ ''@'')" by simp
  have h5: "CHR ''@'' \<notin> set ''h'' \<union> set ''abc''" by simp
  have h6: "CHR '':'' \<notin> set ''h''" by simp
  have h7: "int_of_str demo_lib ''abc'' = None" by (simp add: demo_lib_def demo_int_def)
  from non_integer_port_is_tolerated[OF h1 h2 h3 h4 h5 h6 h7] h1 h2 h7 show ?thesis by blast
qed

lemma map_of_remove_jdbc_only:
  "map_of (remove_jdbc_only d) k = (if k \<in> set jdbc_only_keys then None else map_of d k)"
  by (simp add: remove_jdbc_only_def jdbc_only_keys_def delete_conv')

lemma length_py_lower: "length (py_lower s) = length s"
  by (simp add: py_lower_def)

lemma not_timezone_keys:
  "\<not> is_timezone_key ''schema''" "\<not> is_timezone_key ''search_path''"
  "\<not> is_timezone_key ''options''" "\<not> is_timezone_key ''sslmode''"
proof -
  have "\<not> is_timezone_key k" if "length k \<noteq> 8" "length k \<noteq> 14" for k
  proof
    assume "is_timezone_key k"
    then have "length (py_lower k) = 8 \<or> length (py_lower k) = 14"
      by (auto simp: is_timezone_key_def)
    with that show False by (simp add: length_py_lower)
  qed
  then show "\<not> is_timezone_key ''schema''" "\<not> is_timezone_key ''search_path''"
    "\<not> is_timezone_key ''options''" "\<not> is_timezone_key ''sslmode''" by simp_all
qed

lemma find_update_other:
  "\<not> is_timezone_key k \<Longrightarrow>
   find (\<lambda>(k, v). is_timezone_key k) (AList.update k v d) = find (\<lambda>(k, v). is_timezone_key k) d"
  by (induction d) auto

lemma find_timezone_stable:
  "find (\<lambda>(k, v). is_timezone_key k) (fold_current_schema (map_ssl d)) = find (\<lambda>(k, v). is_timezone_key k) d"
  by (simp add: fold_current_schema_def map_ssl_def setdefault_def find_update_other not_timezone_keys
        split: option.splits)

lemma map_of_map_ssl: "k \<noteq> ''sslmode'' \<Longrightarrow> map_of (map_ssl d) k = map_of d k"
  by (simp add: map_ssl_def update_conv')

lemma truthy_value_map_ssl: "k \<noteq> ''sslmode'' \<Longrightarrow> truthy_value (map_ssl d) k = truthy_value d k"
  by (simp add: truthy_value_def map_of_map_ssl)

lemma map_of_fold_current_schema:
  "map_of (fold_current_schema d) k =
     (if k = ''options'' \<and> map_of d ''options'' = None
      then map_option (\<lambda>v. ''-c search_path='' @ v) (truthy_value d ''currentSchema'')
      else map_of d k)"
  by (auto simp: fold_current_schema_def setdefault_def update_conv' split: option.splits)

lemma find_timezone_key:
  "find (\<lambda>(k, v). is_timezone_key k) d = Some (key, tz) \<Longrightarrow> is_timezone_key key"
  by (auto simp: find_Some_iff)

lemma map_of_fold_timezone_other:
  assumes "\<not> is_timezone_key k" "k \<noteq> ''options''"
  shows "map_of (fold_timezone d) k = map_of d k"
proof (cases "find (\<lambda>(k, v). is_timezone_key k) d")
  case None
  then show ?thesis by (simp add: fold_timezone_def)
next
  case (Some kv)
  obtain key tz where kv: "kv = (key, tz)" by (cases kv) auto
  from find_timezone_key[OF Some[unfolded kv]] assms(1) have "k \<noteq> key" by auto
  with Some kv assms(2) show ?thesis
    by (auto simp: fold_timezone_def Let_def update_conv' delete_conv' split: option.splits)
qed

lemma map_of_fold_timezone_options:
  "map_of (fold_timezone d) ''options'' =
     (case find (\<lambda>(k, v). is_timezone_key k) d of
        None \<Rightarrow> map_of d ''options''
      | Some (key, tz) \<Rightarrow>
          if tz \<noteq> [] then
            Some ((case map_of d ''options'' of
                     Some opts \<Rightarrow> if opts \<noteq> [] then opts @ '' '' else []
                   | None \<Rightarrow> []) @ ''-c TimeZone='' @ tz)
          else map_of d ''options'')"
proof (cases "find (\<lambda>(k, v). is_timezone_key k) d")
  case None
  then show ?thesis by (simp add: fold_timezone_def)
next
  case (Some kv)
  obtain key tz where kv: "kv = (key, tz)" by (cases kv) auto
  from find_timezone_key[OF Some[unfolded kv]] not_timezone_keys(3) have "key \<noteq> ''options''" by auto
  with Some kv show ?thesis
    by (auto simp: fold_timezone_def Let_def update_conv' delete_conv' split: option.splits)
qed

text \<open>
  Claim C4, as the code has it. For a descriptor that \<open>parse_jdbc_url\<close> accepts, with \<open>raw\<close> the
  bag of first values of the query: the \<open>schema\<close> field is the non-empty value of
  \<open>currentSchema\<close>, else the non-empty value of \<open>search_path\<close>, else none (the key \<open>schema\<close> is
  not read); the keys \<open>currentSchema\<close>, \<open>ssl\<close>, \<open>characterEncoding\<close>, \<open>TimeZone\<close> and
  \<open>serverTimezone\<close> are absent from the returned bag, while \<open>schema\<close> and \<open>search_path\<close> stay
  in it as they were; \<open>options\<close> is the given \<open>options\<close> value when there is one, and else
  \<open>-c search_path=<currentSchema>\<close> (\<open>setdefault\<close>: a given value is kept, not joined), with
  \<open>-c TimeZone=<value>\<close> of the first timezone-like key appended after a space.
\<close>

theorem parse_jdbc_url_consolidation:
  assumes "parse_jdbc_url lib jdbc_url = Inr r"
    and "urlparse lib (drop 5 jdbc_url) = Inr parsed"
    and "raw = first_values (parse_qs lib (query_string parsed))"
    and "base = (case map_of raw ''options'' of
                   Some opts \<Rightarrow> Some opts
                 | None \<Rightarrow> map_option (\<lambda>v. ''-c search_path='' @ v) (truthy_value raw ''currentSchema''))"
  shows "schema r = (case truthy_value raw ''currentSchema'' of
                       Some v \<Rightarrow> Some v
                     | None \<Rightarrow> truthy_value raw ''search_path'')
       \<and> (\<forall>k \<in> set [''currentSchema'', ''ssl'', ''characterEncoding'', ''TimeZone'', ''serverTimezone''].
             map_of (params r) k = None)
       \<and> map_of (params r) ''schema'' = map_of raw ''schema''
       \<and> map_of (params r) ''search_path'' = map_of raw ''search_path''
       \<and> map_of (params r) ''options'' =
            (case find (\<lambda>(k, v). is_timezone_key k) raw of
               None \<Rightarrow> base
             | Some (key, tz) \<Rightarrow>
                 if tz \<noteq> [] then
                   Some ((case base of
                            Some opts \<Rightarrow> if opts \<noteq> [] then opts @ '' '' else []
                          | None \<Rightarrow> []) @ ''-c TimeZone='' @ tz)
                 else base)"
proof -
  let ?d2 = "fold_current_schema (map_ssl raw)"
  from assms(1) assms(2) assms(3)
  have p: "params r = remove_jdbc_only (fold_timezone ?d2)" and s: "schema r = capture_schema raw"
    by (auto simp: parse_jdbc_url_def Let_def split: if_splits prod.splits)
  have c1: "schema r = (case truthy_value raw ''currentSchema'' of
                       Some v \<Rightarrow> Some v
                     | None \<Rightarrow> truthy_value raw ''search_path'')"
    by (simp add: s capture_schema_def)
  have c2: "\<forall>k \<in> set [''currentSchema'', ''ssl'', ''characterEncoding'', ''TimeZone'', ''serverTimezone''].
             map_of (params r) k = None"
    by (simp add: p map_of_remove_jdbc_only jdbc_only_keys_def)
  have keep: "map_of (params r) k = map_of raw k"
    if "\<not> is_timezone_key k" "k \<noteq> ''options''" "k \<noteq> ''sslmode''" "k \<notin> set jdbc_only_keys" for k
    using that
    by (simp add: p map_of_remove_jdbc_only map_of_fold_timezone_other map_of_fold_current_schema
          map_of_map_ssl)
  have c3: "map_of (params r) ''schema'' = map_of raw ''schema''"
    by (rule keep) (simp_all add: not_timezone_keys jdbc_only_keys_def)
  have c4: "map_of (params r) ''search_path'' = map_of raw ''search_path''"
    by (rule keep) (simp_all add: not_timezone_keys jdbc_only_keys_def)
  have b: "map_of ?d2 ''options'' = base"
  proof (cases "map_of raw ''options''")
    case None
    then show ?thesis
      unfolding assms(4)
      by (simp add: map_of_fold_current_schema map_of_map_ssl truthy_value_map_ssl)
  next
    case (Some opts)
    then show ?thesis
      unfolding assms(4)
      by (simp add: map_of_fold_current_schema map_of_map_ssl)
  qed
  have "map_of (params r) ''options'' = map_of (fold_timezone ?d2) ''options''"
    by (simp add: p map_of_remove_jdbc_only jdbc_only_keys_def)
  then have c5: "map_of (params r) ''options'' =
            (case find (\<lambda>(k, v). is_timezone_key k) raw of
               None \<Rightarrow> base
             | Some (key, tz) \<Rightarrow>
                 if tz \<noteq> [] then
                   Some ((case base of
                            Some opts \<Rightarrow> if opts \<noteq> [] then opts @ '' '' else []
                          | None \<Rightarrow> []) @ ''-c TimeZone='' @ tz)
                 else base)"
    by (simp only: map_of_fold_timezone_options find_timezone_stable b)
  from c1 c2 c3 c4 c5 show ?thesis by blast
qed

lemma demo_full_descriptor:
  "parse_jdbc_url demo_lib
      ''jdbc:postgresql://user:pw@db.example.com:5432/mydb?ssl=false&currentSchema=app&serverTimezone=UTC&search_path=other'' =
     Inr \<lparr>conn_type = ''postgresql'', host = Some ''db.example.com'', port = Some 5432,
          database = ''mydb'', username = Some ''user'', password = Some ''pw'',
          params = [(''search_path'', ''other''), (''sslmode'', ''disable''),
                    (''options'', ''-c search_path=app -c TimeZone=UTC'')],
          schema = Some ''app''\<rparr>"
  by code_simp

text \<open>
  Claim C4 as stated fails: the alias \<open>schema\<close> is neither moved into the \<open>schema\<close> field nor
  folded into \<open>options\<close>, and it stays in the bag; and a given \<open>options\<close> value is kept as it
  is when \<open>currentSchema\<close> is present, not joined with the search path.
\<close>

theorem schema_alias_is_not_consolidated:
  "parse_jdbc_url demo_lib ''jdbc:postgresql://h/db?schema=public'' =
     Inr \<lparr>conn_type = ''postgresql'', host = Some ''h'', port = None, database = ''db'',
          username = None, password = None, params = [(''schema'', ''public'')], schema = None\<rparr>
   \<and> parse_jdbc_url demo_lib ''jdbc:postgresql://h/db?options=x&currentSchema=app'' =
     Inr \<lparr>conn_type = ''postgresql'', host = Some ''h'', port = None, database = ''db'',
          username = None, password = None, params = [(''options'', ''x'')], schema = Some ''app''\<rparr>"
  by (simp add: parse_jdbc_url_def demo_lib_def demo_urlparse_def demo_parse_qs_def demo_int_def
        startswith_def Let_def split_userinfo_def split_hostinfo_def split_first_def split_last_def
        first_values_def capture_schema_def truthy_value_def map_ssl_def fold_current_schema_def
        setdefault_def fold_timezone_def is_timezone_key_def remove_jdbc_only_def jdbc_only_keys_def
        detect_conn_type_def py_lower_def py_lower_char_def AList.delete_eq)

theorem parse_jdbc_url_consolidation_witness:
  "\<exists>r. parse_jdbc_url demo_lib
        ''jdbc:postgresql://user:pw@db.example.com:5432/mydb?ssl=false&currentSchema=app&serverTimezone=UTC&search_path=other''
        = Inr r
      \<and> schema r = Some ''app''
      \<and> map_of (params r) ''currentSchema'' = None
      \<and> map_of (params r) ''ssl'' = None
      \<and> map_of (params r) ''serverTimezone'' = None
      \<and> map_of (params r) ''search_path'' = Some ''other''
      \<and> map_of (params r) ''options'' = Some ''-c search_path=app -c TimeZone=UTC''"
proof -
  let ?url = "''jdbc:postgresql://user:pw@db.example.com:5432/mydb?ssl=false&currentSchema=app&serverTimezone=UTC&search_path=other''"
  let ?r = "\<lparr>conn_type = ''postgresql'', host = Some ''db.example.com'', port = Some 5432,
          database = ''mydb'', username = Some ''user'', password = Some ''pw'',
          params = [(''search_path'', ''other''), (''sslmode'', ''disable''),
                    (''options'', ''-c search_path=app -c TimeZone=UTC'')],
          schema = Some ''app''\<rparr>"
  let ?parsed = "\<lparr>scheme = ''postgresql'', netloc = ''user:pw@db.example.com:5432'', path = ''/mydb'',
          query_string = ''ssl=false&currentSchema=app&serverTimezone=UTC&search_path=other''\<rparr>"
  let ?raw = "[(''ssl'', ''false''), (''currentSchema'', ''app''), (''serverTimezone'', ''UTC''),
          (''search_path'', ''other'')]"
  have h1: "parse_jdbc_url demo_lib ?url = Inr ?r" by (rule demo_full_descriptor)
  have h2: "urlparse demo_lib (drop 5 ?url) = Inr ?parsed" by code_simp
  have h3: "?raw = first_values (parse_qs demo_lib (query_string ?parsed))" by code_simp
  have h4: "Some ''-c search_path=app'' =
              (case map_of ?raw ''options'' of
                 Some opts \<Rightarrow> Some opts
               | None \<Rightarrow> map_option (\<lambda>v. ''-c search_path='' @ v) (truthy_value ?raw ''currentSchema''))"
    by (simp add: truthy_value_def)
  have tz: "find (\<lambda>(k, v). is_timezone_key k) ?raw = Some (''serverTimezone'', ''UTC'')" by code_simp
  have tv: "truthy_value ?raw ''currentSchema'' = Some ''app''" by (simp add: truthy_value_def)
  from parse_jdbc_url_consolidation[OF h1 h2 h3 h4]
  have "schema ?r = Some ''app''
      \<and> map_of (params ?r) ''currentSchema'' = None
      \<and> map_of (params ?r) ''ssl'' = None
      \<and> map_of (params ?r) ''serverTimezone'' = None
      \<and> map_of (params ?r) ''search_path'' = Some ''other''
      \<and> map_of (params ?r) ''options'' = Some ''-c search_path=app -c TimeZone=UTC''"
    unfolding tz tv by simp
  with h1 show ?thesis by blast
qed

section \<open>The connection directive\<close>






















end
